theory Spec2Isabelle
  imports Main "HOL-Library.Multiset"
begin

section \<open>Strings of the host language\<close>

text \<open>
  File texts are sequences of UTF-16 code units.  The model uses \<^typ>\<open>string\<close> and
  so covers the code units below 256 (ASCII and Latin-1); every literal of the two
  tools is ASCII.  The functions of this section are the host language's string methods
  that the tools call: \<^verbatim>\<open>includes\<close>, \<^verbatim>\<open>split('\n')\<close>, \<^verbatim>\<open>trim\<close>,
  \<^verbatim>\<open>findIndex\<close>.
\<close>

abbreviation newline :: char where
  "newline \<equiv> CHR 0x0A"

text \<open>\<^verbatim>\<open>s.includes(t)\<close>: \<open>t\<close> occurs in \<open>s\<close> as a contiguous substring.\<close>

fun includes_str :: "string \<Rightarrow> string \<Rightarrow> bool" where
  "includes_str [] t = (t = [])"
| "includes_str (x # xs) t = (take (length t) (x # xs) = t \<or> includes_str xs t)"

text \<open>\<^verbatim>\<open>s.split('\n')\<close>: the pieces between newline characters; never empty.\<close>

fun split :: "string \<Rightarrow> string list" where
  "split [] = [[]]"
| "split (x # xs) =
     (if x = newline then [] # split xs
      else (case split xs of l # ls \<Rightarrow> (x # l) # ls | [] \<Rightarrow> [[x]]))"

text \<open>
  White space and line terminators of the host language among the code units below
  256: TAB, LF, VT, FF, CR, SPACE and NO-BREAK SPACE.  This is the set that
  \<^verbatim>\<open>trim\<close> strips and that the pattern atom \<^verbatim>\<open>\s\<close> accepts.
\<close>

definition isWhiteSpace :: "char \<Rightarrow> bool" where
  "isWhiteSpace x =
     (let n = (of_char x :: int) in (9 \<le> n \<and> n \<le> 13) \<or> n = 32 \<or> n = 160)"

definition trim :: "string \<Rightarrow> string" where
  "trim s = rev (dropWhile isWhiteSpace (rev (dropWhile isWhiteSpace s)))"

text \<open>\<^verbatim>\<open>xs.findIndex(p)\<close>, with \<open>None\<close> for the result \<open>-1\<close>.\<close>

fun findIndex :: "('a \<Rightarrow> bool) \<Rightarrow> 'a list \<Rightarrow> nat option" where
  "findIndex p [] = None"
| "findIndex p (x # xs) =
     (if p x then Some 0 else map_option Suc (findIndex p xs))"

section \<open>Regular expressions of the host language\<close>

text \<open>
  The patterns of the tools are regular-expression literals.  Their meaning is the
  backtracking matcher of the language standard, which is written with continuations:
  a matcher takes the current state and a continuation and returns the first success in
  priority order.  The state here is the character before the current position (for
  \<^verbatim>\<open>\b\<close>), the remaining input and the captures.  Quantifiers are only ever applied
  to single-character atoms in the tools' patterns, which is what \<open>Repeat\<close> covers.
\<close>

datatype cset =
    Lit char              \<comment> \<open>a literal character\<close>
  | AnyChar               \<comment> \<open>\<^verbatim>\<open>.\<close>: anything but a line terminator\<close>
  | Space                 \<comment> \<open>\<^verbatim>\<open>\s\<close>\<close>
  | WordCh                \<comment> \<open>\<^verbatim>\<open>\w\<close> and \<^verbatim>\<open>[\w]\<close>\<close>
  | OneOf "char list"     \<comment> \<open>\<^verbatim>\<open>[abc]\<close>\<close>
  | NoneOf "char list"    \<comment> \<open>\<^verbatim>\<open>[^abc]\<close>\<close>

datatype regex =
    Empty
  | Atom cset
  | Boundary                      \<comment> \<open>\<^verbatim>\<open>\b\<close>\<close>
  | Seq regex regex
  | Alt regex regex               \<comment> \<open>\<^verbatim>\<open>r|s\<close>, left alternative first\<close>
  | Group nat regex               \<comment> \<open>capturing group, numbered from 0\<close>
  | Repeat nat bool cset          \<comment> \<open>at least \<open>n\<close> times; greedy or lazy\<close>

text \<open>
  Case-insensitive comparison maps both characters to upper case.  Below 256 the
  letters with an upper-case form in the same range are a-z and the Latin-1 letters
  0xE0-0xFE except the division sign 0xF7; the others are left alone by the standard's
  rule as far as equality between characters below 256 is concerned.
\<close>

definition canonicalize :: "bool \<Rightarrow> char \<Rightarrow> char" where
  "canonicalize ic x =
     (let n = (of_char x :: int) in
      if ic \<and> ((97 \<le> n \<and> n \<le> 122) \<or> (224 \<le> n \<and> n \<le> 254 \<and> n \<noteq> 247))
      then char_of (n - 32) else x)"

definition isWordChar :: "char \<Rightarrow> bool" where
  "isWordChar x =
     (let n = (of_char x :: int) in
      (97 \<le> n \<and> n \<le> 122) \<or> (65 \<le> n \<and> n \<le> 90) \<or> (48 \<le> n \<and> n \<le> 57) \<or> n = 95)"

fun charMatches :: "bool \<Rightarrow> cset \<Rightarrow> char \<Rightarrow> bool" where
  "charMatches ic (Lit a) x = (canonicalize ic a = canonicalize ic x)"
| "charMatches ic AnyChar x = (x \<noteq> newline \<and> x \<noteq> CHR 0x0D)"
| "charMatches ic Space x = isWhiteSpace x"
| "charMatches ic WordCh x = isWordChar x"
| "charMatches ic (OneOf as) x = (canonicalize ic x \<in> set (map (canonicalize ic) as))"
| "charMatches ic (NoneOf as) x = (canonicalize ic x \<notin> set (map (canonicalize ic) as))"

type_synonym captures = "string option list"

type_synonym 'r continuation = "char option \<Rightarrow> string \<Rightarrow> captures \<Rightarrow> 'r option"

text \<open>
  The quantifier on an atom: first the mandatory repetitions; then, greedy, one more
  repetition before the continuation, or, lazy, the continuation before one more
  repetition.
\<close>

fun repeatMatcher ::
  "bool \<Rightarrow> cset \<Rightarrow> nat \<Rightarrow> bool \<Rightarrow> char option \<Rightarrow> string \<Rightarrow> captures \<Rightarrow> 'r continuation \<Rightarrow> 'r option"
where
  "repeatMatcher ic a mn greedy p [] c k = (if mn = 0 then k p [] c else None)"
| "repeatMatcher ic a mn greedy p (x # xs) c k =
     (if 0 < mn then
        (if charMatches ic a x then repeatMatcher ic a (mn - 1) greedy (Some x) xs c k
         else None)
      else if greedy then
        (case (if charMatches ic a x then repeatMatcher ic a 0 greedy (Some x) xs c k
               else None) of
           Some r \<Rightarrow> Some r
         | None \<Rightarrow> k p (x # xs) c)
      else
        (case k p (x # xs) c of
           Some r \<Rightarrow> Some r
         | None \<Rightarrow>
             (if charMatches ic a x then repeatMatcher ic a 0 greedy (Some x) xs c k
              else None)))"

definition isWordBefore :: "char option \<Rightarrow> bool" where
  "isWordBefore p = (case p of None \<Rightarrow> False | Some x \<Rightarrow> isWordChar x)"

definition isWordAt :: "string \<Rightarrow> bool" where
  "isWordAt s = (case s of [] \<Rightarrow> False | x # _ \<Rightarrow> isWordChar x)"

fun matcher ::
  "bool \<Rightarrow> regex \<Rightarrow> char option \<Rightarrow> string \<Rightarrow> captures \<Rightarrow> 'r continuation \<Rightarrow> 'r option"
where
  "matcher ic Empty p s c k = k p s c"
| "matcher ic (Atom a) p s c k =
     (case s of
        [] \<Rightarrow> None
      | x # xs \<Rightarrow> if charMatches ic a x then k (Some x) xs c else None)"
| "matcher ic Boundary p s c k =
     (if isWordBefore p \<noteq> isWordAt s then k p s c else None)"
| "matcher ic (Seq r1 r2) p s c k =
     matcher ic r1 p s c (\<lambda>p' s' c'. matcher ic r2 p' s' c' k)"
| "matcher ic (Alt r1 r2) p s c k =
     (case matcher ic r1 p s c k of
        Some r \<Rightarrow> Some r
      | None \<Rightarrow> matcher ic r2 p s c k)"
| "matcher ic (Group i r) p s c k =
     matcher ic r p s c
       (\<lambda>p' s' c'. k p' s' (c'[i := Some (take (length s - length s') s)]))"
| "matcher ic (Repeat mn greedy a) p s c k = repeatMatcher ic a mn greedy p s c k"

text \<open>A pattern literal: its source text, its flags, its body and its number of groups.\<close>

record RegExp =
  source :: string
  global :: bool
  ignoreCase :: bool
  body :: regex
  groups :: nat

text \<open>
  One attempt at the current position: on success the matched text, the input after it
  and the captures.
\<close>

definition matchHere :: "RegExp \<Rightarrow> char option \<Rightarrow> string \<Rightarrow> (string \<times> string \<times> captures) option" where
  "matchHere rx p s =
     matcher (ignoreCase rx) (body rx) p s (replicate (groups rx) None)
       (\<lambda>p' s' c'. Some (take (length s - length s') s, s', c'))"

text \<open>
  The search of a pattern without the global flag: the leftmost match only, as the
  array of the matched text followed by the text of each capturing group, \<open>None\<close> for
  a group that took no part (\<^verbatim>\<open>undefined\<close>); \<open>None\<close> for the whole result when
  nothing matches (\<^verbatim>\<open>null\<close>).
\<close>

fun execFrom :: "RegExp \<Rightarrow> char option \<Rightarrow> string \<Rightarrow> string option list option" where
  "execFrom rx p [] =
     (case matchHere rx p [] of
        Some (m, s', c') \<Rightarrow> Some (Some m # c')
      | None \<Rightarrow> None)"
| "execFrom rx p (x # xs) =
     (case matchHere rx p (x # xs) of
        Some (m, s', c') \<Rightarrow> Some (Some m # c')
      | None \<Rightarrow> execFrom rx (Some x) xs)"

text \<open>
  The search of a pattern with the global flag: every match from left to right, each
  search starting where the last match ended, and one character further after an empty
  match.  \<open>skip\<close> counts the positions still inside the last match.
\<close>

fun globalFrom :: "RegExp \<Rightarrow> nat \<Rightarrow> char option \<Rightarrow> string \<Rightarrow> (string \<times> captures) list" where
  "globalFrom rx skip p [] =
     (if skip = 0 then
        (case matchHere rx p [] of
           Some (m, s', c') \<Rightarrow> [(m, c')]
         | None \<Rightarrow> [])
      else [])"
| "globalFrom rx skip p (x # xs) =
     (if 0 < skip then globalFrom rx (skip - 1) (Some x) xs
      else
        (case matchHere rx p (x # xs) of
           Some (m, s', c') \<Rightarrow> (m, c') # globalFrom rx (length m - 1) (Some x) xs
         | None \<Rightarrow> globalFrom rx 0 (Some x) xs))"

text \<open>
  \<^verbatim>\<open>content.match(rx)\<close>.  Without the global flag, the array of the first match and
  its groups; with it, the array of all matched texts; \<open>None\<close> (\<^verbatim>\<open>null\<close>) when
  nothing matches.
\<close>

definition match_str :: "string \<Rightarrow> RegExp \<Rightarrow> string option list option" where
  "match_str text rx =
     (if global rx then
        (case globalFrom rx 0 None text of
           [] \<Rightarrow> None
         | ms \<Rightarrow> Some (map (\<lambda>(m, c). Some m) ms))
      else execFrom rx None text)"

text \<open>\<^verbatim>\<open>rx.test(content)\<close> for a pattern without the global flag.\<close>

definition test_str :: "RegExp \<Rightarrow> string \<Rightarrow> bool" where
  "test_str rx text = (execFrom rx None text \<noteq> None)"

text \<open>
  The loop \<^verbatim>\<open>while ((match = rx.exec(content)) !== null)\<close> over a pattern with the
  global flag: the matches with their captures, in order.  Each call starts where the
  last match ended, so after an empty match the same call repeats for ever: \<open>None\<close>.
\<close>

definition execLoop :: "RegExp \<Rightarrow> string \<Rightarrow> (string \<times> captures) list option" where
  "execLoop rx text =
     (let ms = globalFrom rx 0 None text
      in if list_ex (\<lambda>(m, c). m = []) ms then None else Some ms)"

text \<open>Building blocks for writing the pattern literals.\<close>

definition lits :: "string \<Rightarrow> regex" where
  "lits s = foldr (\<lambda>x r. Seq (Atom (Lit x)) r) s Empty"

fun alts :: "regex list \<Rightarrow> regex" where
  "alts [] = Empty"
| "alts [r] = r"
| "alts (r # rs) = Alt r (alts rs)"

fun seqs :: "regex list \<Rightarrow> regex" where
  "seqs [] = Empty"
| "seqs (r # rs) = Seq r (seqs rs)"

abbreviation backslash :: char where
  "backslash \<equiv> CHR 0x5C"

section \<open>The compliance checker\<close>

subsection \<open>The detector set\<close>

record Detector =
  pattern :: RegExp
  message :: string
  severity :: string

text \<open>
  \<^verbatim>\<open>/\b(email|password|phone|name|address|zip|postal|code|username|url)\b.*?(validate|validation|valid|invalid|pattern|regex|match|test)/i\<close>
\<close>

definition fieldPattern :: RegExp where
  "fieldPattern = \<lparr>
     source = backslash # ''b(email|password|phone|name|address|zip|postal|code|username|url)''
       @ backslash # ''b.*?(validate|validation|valid|invalid|pattern|regex|match|test)'',
     global = False,
     ignoreCase = True,
     body = seqs [
       Boundary,
       Group 0 (alts (map lits [''email'', ''password'', ''phone'', ''name'', ''address'',
         ''zip'', ''postal'', ''code'', ''username'', ''url''])),
       Boundary,
       Repeat 0 False AnyChar,
       Group 1 (alts (map lits [''validate'', ''validation'', ''valid'', ''invalid'',
         ''pattern'', ''regex'', ''match'', ''test'']))],
     groups = 2 \<rparr>"

text \<open>\<^verbatim>\<open>/\.test\(\s*\/[^/]+\/\s*\)/\<close>\<close>

definition testPattern :: RegExp where
  "testPattern = \<lparr>
     source = backslash # ''.test'' @ backslash # ''('' @ backslash # ''s*'' @ backslash # ''/[^/]+''
       @ backslash # ''/'' @ backslash # ''s*'' @ backslash # '')'',
     global = False,
     ignoreCase = False,
     body = seqs [
       lits ''.test('', Repeat 0 True Space, Atom (Lit CHR ''/''),
       Repeat 1 True (NoneOf ''/''), Atom (Lit CHR ''/''), Repeat 0 True Space,
       Atom (Lit CHR '')'')],
     groups = 0 \<rparr>"

text \<open>\<^verbatim>\<open>/\.match\(\s*\/[^/]+\/\s*\)/\<close>\<close>

definition matchPattern :: RegExp where
  "matchPattern = \<lparr>
     source = backslash # ''.match'' @ backslash # ''('' @ backslash # ''s*'' @ backslash # ''/[^/]+''
       @ backslash # ''/'' @ backslash # ''s*'' @ backslash # '')'',
     global = False,
     ignoreCase = False,
     body = seqs [
       lits ''.match('', Repeat 0 True Space, Atom (Lit CHR ''/''),
       Repeat 1 True (NoneOf ''/''), Atom (Lit CHR ''/''), Repeat 0 True Space,
       Atom (Lit CHR '')'')],
     groups = 0 \<rparr>"

text \<open>\<^verbatim>\<open>/new RegExp\(/\<close>\<close>

definition newRegExpPattern :: RegExp where
  "newRegExpPattern = \<lparr>
     source = ''new RegExp'' @ backslash # ''('',
     global = False,
     ignoreCase = False,
     body = lits ''new RegExp('',
     groups = 0 \<rparr>"

text \<open>
  \<^verbatim>\<open>/\.(substring|substr|slice|trim|replace|replaceAll|padStart|padEnd|toLowerCase|toUpperCase)\(/\<close>
\<close>

definition stringMethodPattern :: RegExp where
  "stringMethodPattern = \<lparr>
     source = backslash # ''.(substring|substr|slice|trim|replace|replaceAll|padStart|padEnd|toLowerCase|toUpperCase)''
       @ backslash # ''('',
     global = False,
     ignoreCase = False,
     body = seqs [
       Atom (Lit CHR ''.''),
       Group 0 (alts (map lits [''substring'', ''substr'', ''slice'', ''trim'', ''replace'',
         ''replaceAll'', ''padStart'', ''padEnd'', ''toLowerCase'', ''toUpperCase''])),
       Atom (Lit CHR ''('')],
     groups = 1 \<rparr>"

text \<open>
  \<^verbatim>\<open>/\b(validation|validator|validate|validateField|isValid)\s*=\s*function|=>\s*{/\<close>:
  the alternation binds weakest, so the second alternative is \<^verbatim>\<open>=>\s*{\<close> alone and
  the group takes no part in it.
\<close>

definition customFunctionPattern :: RegExp where
  "customFunctionPattern = \<lparr>
     source = backslash # ''b(validation|validator|validate|validateField|isValid)''
       @ backslash # ''s*='' @ backslash # ''s*function|=>'' @ backslash # ''s*{'',
     global = False,
     ignoreCase = False,
     body = Alt
       (seqs [
          Boundary,
          Group 0 (alts (map lits [''validation'', ''validator'', ''validate'',
            ''validateField'', ''isValid''])),
          Repeat 0 True Space, Atom (Lit CHR ''=''), Repeat 0 True Space,
          lits ''function''])
       (seqs [lits ''=>'', Repeat 0 True Space, Atom (Lit CHR ''{'')]),
     groups = 1 \<rparr>"

definition VALIDATION_ISSUES :: "Detector list" where
  "VALIDATION_ISSUES = [
     \<lparr> pattern = fieldPattern,
       message = ''Contains field validation that might need ValidationService'',
       severity = ''medium'' \<rparr>,
     \<lparr> pattern = testPattern,
       message = ''Using regex test() directly instead of ValidationService'',
       severity = ''high'' \<rparr>,
     \<lparr> pattern = matchPattern,
       message = ''Using regex match() directly instead of ValidationService'',
       severity = ''high'' \<rparr>,
     \<lparr> pattern = newRegExpPattern,
       message = ''Creating RegExp directly instead of using ValidationService'',
       severity = ''high'' \<rparr>,
     \<lparr> pattern = stringMethodPattern,
       message = ''String manipulation that might need FormatterService'',
       severity = ''low'' \<rparr>,
     \<lparr> pattern = customFunctionPattern,
       message = ''Custom validation function that might duplicate ValidationService functionality'',
       severity = ''medium'' \<rparr>]"

text \<open>\<^verbatim>\<open>rx.toString()\<close>: the literal as written, with its flags.\<close>

definition toString :: "RegExp \<Rightarrow> string" where
  "toString rx =
     ''/'' @ source rx @ ''/'' @ (if global rx then ''g'' else []) @ (if ignoreCase rx then ''i'' else [])"

subsection \<open>Checking one file\<close>

record Issue =
  issue_pattern :: string
  issue_message :: string
  issue_severity :: string
  line :: nat
  content :: string
  suggestion :: string

text \<open>
  What can be thrown inside \<^verbatim>\<open>checkFile\<close>: the read of the file fails (with the
  message of the file system), or a method is called on \<^verbatim>\<open>undefined\<close>, which is a
  type error.
\<close>

datatype fault = ReadFailure string | TypeError

definition faultMessage :: "fault \<Rightarrow> string" where
  "faultMessage e =
     (case e of
        ReadFailure msg \<Rightarrow> msg
      | TypeError \<Rightarrow> ''Cannot read properties of undefined (reading '' @ [CHR 0x27]
          @ ''includes'' @ [CHR 0x27] @ '')'')"

text \<open>
  \<^verbatim>\<open>getSuggestion(match, issue, usesValidationService, usesFormatterService)\<close>.  The
  first thing it does is call \<^verbatim>\<open>match.includes\<close>, which throws when \<^verbatim>\<open>match\<close> is
  \<^verbatim>\<open>undefined\<close>.
\<close>

definition getSuggestion :: "string option \<Rightarrow> Detector \<Rightarrow> bool \<Rightarrow> bool \<Rightarrow> fault + string" where
  "getSuggestion mt issue usesVS usesFS =
     (case mt of
        None \<Rightarrow> Inl TypeError
      | Some m \<Rightarrow> Inr (
          if includes_str m ''.test('' then
            ''Use ValidationService.createValidator() or a specific validator from @/lib/validation instead of regex tests''
          else if includes_str m ''.match('' then
            ''Use ValidationService.createValidator() or a specific validator from @/lib/validation instead of regex matching''
          else if includes_str m ''trim'' \<or> includes_str m ''replace'' \<or> includes_str m ''substring'' then
            ''Consider using FormatterService.formatValue() for consistent string formatting''
          else
            ''Consider using the appropriate method from ''
              @ (if usesVS then [] else ''ValidationService or '')
              @ (if usesFS then [] else ''FormatterService '')
              @ ''instead''))"

text \<open>
  An argument of \<^verbatim>\<open>line.includes\<close> is converted to a string first; \<^verbatim>\<open>undefined\<close>
  becomes the nine letters of its name.
\<close>

definition ToString :: "string option \<Rightarrow> string" where
  "ToString mt = (case mt of None \<Rightarrow> ''undefined'' | Some m \<Rightarrow> m)"

text \<open>
  The body of the inner loop, for one element of the match array: the issues to push
  (none or one), or the fault thrown.  The object pushed is built before the push, so
  a fault in \<^verbatim>\<open>getSuggestion\<close> pushes nothing.
\<close>

definition checkMatch :: "string \<Rightarrow> Detector \<Rightarrow> bool \<Rightarrow> bool \<Rightarrow> string option \<Rightarrow> fault + Issue list" where
  "checkMatch text issue usesVS usesFS mt =
     (let lines = split text in
      case findIndex (\<lambda>line. includes_str line (ToString mt)) lines of
        None \<Rightarrow> Inr []
      | Some lineIndex \<Rightarrow>
          (case getSuggestion mt issue usesVS usesFS of
             Inl e \<Rightarrow> Inl e
           | Inr s \<Rightarrow> Inr [\<lparr>
               issue_pattern = toString (pattern issue),
               issue_message = message issue,
               issue_severity = severity issue,
               line = lineIndex + 1,
               content = trim (lines ! lineIndex),
               suggestion = s \<rparr>]))"

text \<open>\<^verbatim>\<open>for (const match of matches)\<close>, with the array \<open>issues\<close> passed along.\<close>

fun checkMatches ::
  "string \<Rightarrow> Detector \<Rightarrow> bool \<Rightarrow> bool \<Rightarrow> string option list \<Rightarrow> Issue list \<Rightarrow> fault + Issue list"
where
  "checkMatches text issue usesVS usesFS [] issues = Inr issues"
| "checkMatches text issue usesVS usesFS (mt # mts) issues =
     (case checkMatch text issue usesVS usesFS mt of
        Inl e \<Rightarrow> Inl e
      | Inr new \<Rightarrow> checkMatches text issue usesVS usesFS mts (issues @ new))"

text \<open>\<^verbatim>\<open>for (const issue of VALIDATION_ISSUES)\<close>, over any list of detectors.\<close>

fun checkDetectors ::
  "string \<Rightarrow> bool \<Rightarrow> bool \<Rightarrow> Detector list \<Rightarrow> Issue list \<Rightarrow> fault + Issue list"
where
  "checkDetectors text usesVS usesFS [] issues = Inr issues"
| "checkDetectors text usesVS usesFS (issue # rest) issues =
     (case match_str text (pattern issue) of
        None \<Rightarrow> checkDetectors text usesVS usesFS rest issues
      | Some matches \<Rightarrow>
          (case checkMatches text issue usesVS usesFS matches issues of
             Inl e \<Rightarrow> Inl e
           | Inr issues' \<Rightarrow> checkDetectors text usesVS usesFS rest issues'))"

record FileReport =
  path :: string
  usesValidationImport :: bool
  usesValidationService :: bool
  usesFormatterService :: bool
  issueCount :: nat
  issues :: "Issue list"
  suggestedFix :: "string option"

text \<open>
  The result of \<^verbatim>\<open>checkFile\<close>: the report of the file, or, from the
  \<^verbatim>\<open>catch\<close> block, the path with an error text and nothing else.
\<close>

datatype CheckResult = Checked FileReport | CheckError string string

text \<open>The part of \<^verbatim>\<open>checkFile\<close> after the read, on the text of the file.\<close>

definition checkContent :: "string \<Rightarrow> string \<Rightarrow> fault + FileReport" where
  "checkContent filePath text =
     (let usesImport = includes_str text ''@/lib/validation'';
          usesVS = includes_str text ''ValidationService'';
          usesFS = includes_str text ''FormatterService''
      in case checkDetectors text usesVS usesFS VALIDATION_ISSUES [] of
           Inl e \<Rightarrow> Inl e
         | Inr found \<Rightarrow> Inr \<lparr>
             path = filePath,
             usesValidationImport = usesImport,
             usesValidationService = usesVS,
             usesFormatterService = usesFS,
             issueCount = length found,
             issues = found,
             suggestedFix =
               (if 0 < length found \<and> \<not> usesImport
                then Some ''import { ValidationService, FormatterService } from \"@/lib/validation\";''
                else None) \<rparr>)"

text \<open>
  \<^verbatim>\<open>checkFile\<close>, given the read of the file system: \<open>Inl\<close> with the message when
  the read fails.
\<close>

definition checkFile :: "(string \<Rightarrow> string + string) \<Rightarrow> string \<Rightarrow> CheckResult" where
  "checkFile readFile filePath =
     (case (case readFile filePath of
              Inl msg \<Rightarrow> Inl (ReadFailure msg)
            | Inr text \<Rightarrow> checkContent filePath text) of
        Inl e \<Rightarrow> CheckError filePath (''Error checking file: '' @ faultMessage e)
      | Inr report \<Rightarrow> Checked report)"

subsection \<open>The scan and its summary\<close>

text \<open>
  What the tool takes from its host: the project root, the path functions, the file
  system.  They are library code, taken as given.
\<close>

record Host =
  projectRoot :: string
  path_join :: "string \<Rightarrow> string \<Rightarrow> string"
  path_relative :: "string \<Rightarrow> string \<Rightarrow> string"
  existsSync :: "string \<Rightarrow> bool"
  isDirectory :: "string \<Rightarrow> bool"
  globSync :: "string \<Rightarrow> string list"
  readFile :: "string \<Rightarrow> string + string"

record Args =
  target :: "string option"
  fix_flag :: "bool option"

text \<open>
  \<^verbatim>\<open>Promise.all\<close>: each promise, when it completes, stores its value at its own
  index; the result is the array of values once all have completed.  The order in which
  the promises complete is the argument \<open>order\<close>; \<open>None\<close> is a result that never
  comes, because some promise never completes.
\<close>

definition promiseAll :: "nat list \<Rightarrow> 'a list \<Rightarrow> 'a list option" where
  "promiseAll order promises =
     (let values = fold (\<lambda>i vs. if i < length promises then vs[i := Some (promises ! i)] else vs)
                     order (replicate (length promises) None)
      in if None \<in> set values then None else Some (map the values))"

text \<open>
  \<^verbatim>\<open>xs.sort(cmp)\<close>: the standard requires a stable sort, so elements that compare
  equal keep their order.  Insertion from the right, each element placed before the
  first one it does not come after.
\<close>

fun insertBy :: "('a \<Rightarrow> 'a \<Rightarrow> int) \<Rightarrow> 'a \<Rightarrow> 'a list \<Rightarrow> 'a list" where
  "insertBy cmp x [] = [x]"
| "insertBy cmp x (y # ys) =
     (if cmp x y \<le> 0 then x # y # ys else y # insertBy cmp x ys)"

definition sortBy :: "('a \<Rightarrow> 'a \<Rightarrow> int) \<Rightarrow> 'a list \<Rightarrow> 'a list" where
  "sortBy cmp xs = foldr (insertBy cmp) xs []"

record Offender =
  offender_path :: string
  offender_issueCount :: nat

record Detail =
  detail_path :: string
  detail_issues :: "Issue list"
  detail_suggestedFix :: "string option"

record Summary =
  filesScanned :: nat
  filesWithIssues :: nat
  totalIssues :: nat
  highSeverityIssues :: nat
  mostProblematicFiles :: "Offender list"
  detail :: "Detail list"

text \<open>
  \<^verbatim>\<open>results.filter(result => result.issueCount > 0)\<close>: a result of the
  \<^verbatim>\<open>catch\<close> block has no \<^verbatim>\<open>issueCount\<close>, the comparison of \<^verbatim>\<open>undefined\<close>
  with 0 is false, and the result is dropped.
\<close>

definition withIssues :: "CheckResult list \<Rightarrow> FileReport list" where
  "withIssues results = [r. Checked r \<leftarrow> results, 0 < issueCount r]"

text \<open>The comparison function of the sort: \<^verbatim>\<open>(a, b) => b.issueCount - a.issueCount\<close>.\<close>

definition byIssueCount :: "FileReport \<Rightarrow> FileReport \<Rightarrow> int" where
  "byIssueCount a b = int (issueCount b) - int (issueCount a)"

text \<open>
  The summary, from the list of files and the results of \<^verbatim>\<open>checkFile\<close> in the order
  of that list.  The total is taken before the sort, the rest after it.
\<close>

definition summarize :: "Host \<Rightarrow> string list \<Rightarrow> CheckResult list \<Rightarrow> Summary" where
  "summarize host files results =
     (let found = withIssues results;
          total = foldl (\<lambda>total file. total + issueCount file) 0 found;
          sorted = sortBy byIssueCount found
      in \<lparr>
        filesScanned = length files,
        filesWithIssues = length sorted,
        totalIssues = total,
        highSeverityIssues =
          foldl (\<lambda>count file.
                   count + length (filter (\<lambda>issue. issue_severity issue = ''high'') (issues file)))
            0 sorted,
        mostProblematicFiles =
          map (\<lambda>file. \<lparr> offender_path = path_relative host (projectRoot host) (path file),
                         offender_issueCount = issueCount file \<rparr>)
            (take 5 sorted),
        detail =
          map (\<lambda>file. \<lparr> detail_path = path_relative host (projectRoot host) (path file),
                         detail_issues = issues file,
                         detail_suggestedFix = suggestedFix file \<rparr>)
            sorted \<rparr>)"

text \<open>
  The files of the target: those the glob finds under a directory, the target itself
  when it is a file, \<open>None\<close> when there is no such path.
\<close>

definition selectFiles :: "Host \<Rightarrow> string \<Rightarrow> string list option" where
  "selectFiles host targetPath =
     (if existsSync host targetPath \<and> isDirectory host targetPath then
        Some (globSync host (targetPath @ ''/**/*.{tsx,jsx,ts,js}''))
      else if existsSync host targetPath then Some [targetPath]
      else None)"

text \<open>\<^verbatim>\<open>args.target || 'src/components'\<close>: the empty string counts as absent.\<close>

definition targetOf :: "Args \<Rightarrow> string" where
  "targetOf args =
     (case target args of
        None \<Rightarrow> ''src/components''
      | Some t \<Rightarrow> if t = [] then ''src/components'' else t)"

text \<open>
  The outcome of a scan before it is serialised: the target is missing, or the summary.
  \<open>order\<close> is the order in which the checks of the files complete.
\<close>

datatype Outcome = TargetNotFound string | Scanned Summary

definition scan :: "Host \<Rightarrow> Args \<Rightarrow> nat list \<Rightarrow> Outcome option" where
  "scan host args order =
     (case selectFiles host (path_join host (projectRoot host) (targetOf args)) of
        None \<Rightarrow> Some (TargetNotFound (targetOf args))
      | Some files \<Rightarrow>
          map_option (\<lambda>results. Scanned (summarize host files results))
            (promiseAll order (map (checkFile (readFile host)) files)))"

text \<open>
  \<^verbatim>\<open>runValidationCheckerTool\<close>: the text of the single content block of the answer.
  The summary is serialised by the library function \<^verbatim>\<open>JSON.stringify\<close>, the
  argument \<open>stringify\<close>.
\<close>

definition runValidationCheckerTool ::
  "(Summary \<Rightarrow> string) \<Rightarrow> Host \<Rightarrow> Args \<Rightarrow> nat list \<Rightarrow> string option" where
  "runValidationCheckerTool stringify host args order =
     map_option
       (\<lambda>outcome. case outcome of
          TargetNotFound tgt \<Rightarrow> ''Target not found: '' @ tgt
        | Scanned summary \<Rightarrow> stringify summary)
       (scan host args order)"

section \<open>The file analyzer: validation usage\<close>

text \<open>\<^verbatim>\<open>/import\s+.*from\s+['"]@\/lib\/validation['"]/g\<close>\<close>

definition validationImportRegex :: RegExp where
  "validationImportRegex = \<lparr>
     source = ''import'' @ backslash # ''s+.*from'' @ backslash # ''s+['' @ [CHR 0x27, CHR 0x22]
       @ '']@'' @ backslash # ''/lib'' @ backslash # ''/validation['' @ [CHR 0x27, CHR 0x22] @ '']'',
     global = True,
     ignoreCase = False,
     body = seqs [
       lits ''import'', Repeat 1 True Space, Repeat 0 True AnyChar, lits ''from'',
       Repeat 1 True Space, Atom (OneOf [CHR 0x27, CHR 0x22]), lits ''@/lib/validation'',
       Atom (OneOf [CHR 0x27, CHR 0x22])],
     groups = 0 \<rparr>"

text \<open>\<^verbatim>\<open>/ValidationService\.([\w]+)/g\<close>\<close>

definition validationMethodRegex :: RegExp where
  "validationMethodRegex = \<lparr>
     source = ''ValidationService'' @ backslash # ''.(['' @ backslash # ''w]+)'',
     global = True,
     ignoreCase = False,
     body = seqs [lits ''ValidationService.'', Group 0 (Repeat 1 True WordCh)],
     groups = 1 \<rparr>"

text \<open>\<^verbatim>\<open>/FormatterService\.([\w]+)/g\<close>\<close>

definition formatterMethodRegex :: RegExp where
  "formatterMethodRegex = \<lparr>
     source = ''FormatterService'' @ backslash # ''.(['' @ backslash # ''w]+)'',
     global = True,
     ignoreCase = False,
     body = seqs [lits ''FormatterService.'', Group 0 (Repeat 1 True WordCh)],
     groups = 1 \<rparr>"

text \<open>\<^verbatim>\<open>[/\.test\(/, /\.match\(/, /\.replace\(/]\<close>\<close>

definition inlineValidationPatterns :: "RegExp list" where
  "inlineValidationPatterns = [
     \<lparr> source = backslash # ''.test'' @ backslash # ''('', global = False, ignoreCase = False,
       body = lits ''.test('', groups = 0 \<rparr>,
     \<lparr> source = backslash # ''.match'' @ backslash # ''('', global = False, ignoreCase = False,
       body = lits ''.match('', groups = 0 \<rparr>,
     \<lparr> source = backslash # ''.replace'' @ backslash # ''('', global = False, ignoreCase = False,
       body = lits ''.replace('', groups = 0 \<rparr>]"

record ValidationAnalysis =
  va_usesValidationService :: bool
  va_usesFormatterService :: bool
  validationImports :: "string option list"
  validationMethods :: "string option list"
  formatterMethods :: "string option list"
  potentialIssues :: "string list"

text \<open>
  The body of the two method loops: \<^verbatim>\<open>match[1]\<close> is pushed unless the array has it
  already.
\<close>

definition pushNew :: "string option list \<Rightarrow> (string \<times> captures) \<Rightarrow> string option list" where
  "pushNew methods mt =
     (let name = (case snd mt of [] \<Rightarrow> None | g # _ \<Rightarrow> g)
      in if name \<in> set methods then methods else methods @ [name])"

definition methodCalls :: "RegExp \<Rightarrow> string \<Rightarrow> string option list option" where
  "methodCalls rx text = map_option (foldl pushNew []) (execLoop rx text)"

text \<open>
  \<^verbatim>\<open>analyzeValidationUsage(content)\<close>; \<open>None\<close> when one of its loops does not end.
\<close>

definition analyzeValidationUsage :: "string \<Rightarrow> ValidationAnalysis option" where
  "analyzeValidationUsage text =
     (let validationImportMatches =
            (case match_str text validationImportRegex of None \<Rightarrow> [] | Some ms \<Rightarrow> ms)
      in if 0 < length validationImportMatches then
           (case (if includes_str text ''ValidationService''
                  then map_option (Pair True) (methodCalls validationMethodRegex text)
                  else Some (False, [])) of
              None \<Rightarrow> None
            | Some (usesVS, vMethods) \<Rightarrow>
                (case (if includes_str text ''FormatterService''
                       then map_option (Pair True) (methodCalls formatterMethodRegex text)
                       else Some (False, [])) of
                   None \<Rightarrow> None
                 | Some (usesFS, fMethods) \<Rightarrow> Some \<lparr>
                     va_usesValidationService = usesVS,
                     va_usesFormatterService = usesFS,
                     validationImports = validationImportMatches,
                     validationMethods = vMethods,
                     formatterMethods = fMethods,
                     potentialIssues =
                       (if list_ex (\<lambda>rx. test_str rx text) inlineValidationPatterns
                        then [''Possibly contains inline validation/formatting that could be moved to centralized services'']
                        else []) \<rparr>))
         else Some \<lparr>
           va_usesValidationService = False,
           va_usesFormatterService = False,
           validationImports = [],
           validationMethods = [],
           formatterMethods = [],
           potentialIssues = [] \<rparr>)"

section \<open>Notions used in the properties\<close>

text \<open>The files that a scan of the target checks; none when the target is missing.\<close>

definition targetFiles :: "Host \<Rightarrow> Args \<Rightarrow> string list" where
  "targetFiles host args =
     (case selectFiles host (path_join host (projectRoot host) (targetOf args)) of
        None \<Rightarrow> []
      | Some files \<Rightarrow> files)"

text \<open>
  Following the words of the specification: the distinct matched substrings of a pattern
  in a text, that is, the text of every match from left to right, each text once.
\<close>

definition distinctMatches :: "RegExp \<Rightarrow> string \<Rightarrow> string list" where
  "distinctMatches rx src = remdups (map fst (globalFrom rx 0 None src))"

text \<open>A pattern body that cannot match without taking at least one character.\<close>

fun consuming :: "regex \<Rightarrow> bool" where
  "consuming (Atom a) = True"
| "consuming (Seq r1 r2) = (consuming r1 \<or> consuming r2)"
| "consuming (Alt r1 r2) = (consuming r1 \<and> consuming r2)"
| "consuming (Group i r) = consuming r"
| "consuming (Repeat mn greedy a) = (0 < mn)"
| "consuming Empty = False"
| "consuming Boundary = False"

section \<open>Example files\<close>

text \<open>
  A file that names \<^verbatim>\<open>ValidationService\<close> without importing the helper module, and
  constructs a \<^verbatim>\<open>RegExp\<close>.
\<close>

definition ungatedText :: string where
  "ungatedText = ''new RegExp(ValidationService.pattern)''"

definition ungatedIssue :: Issue where
  "ungatedIssue = \<lparr>
     issue_pattern = toString newRegExpPattern,
     issue_message = ''Creating RegExp directly instead of using ValidationService'',
     issue_severity = ''high'',
     line = 1,
     content = ''new RegExp(ValidationService.pattern)'',
     suggestion = ''Consider using the appropriate method from FormatterService instead'' \<rparr>"

definition ungatedReport :: FileReport where
  "ungatedReport = \<lparr>
     path = ''a.ts'', usesValidationImport = False, usesValidationService = True,
     usesFormatterService = False, issueCount = 1,
     issues = [ungatedIssue],
     suggestedFix = Some ''import { ValidationService, FormatterService } from \"@/lib/validation\";'' \<rparr>"

text \<open>
  A file whose first line has the word \<^verbatim>\<open>trim\<close> and whose second line calls
  \<^verbatim>\<open>trim\<close>, and the same file with white space around its lines.
\<close>

definition trimWordText :: string where
  "trimWordText = ''let trim = 1'' @ [newline] @ ''x.trim()''"

definition trimWordIndented :: string where
  "trimWordIndented = ''  let trim = 1 '' @ [newline] @ [CHR 0x09] @ ''x.trim() ''"

text \<open>
  A file where a function is assigned to \<^verbatim>\<open>validate\<close> with a line break before the
  equals sign, and the text that the last pattern matches in it.
\<close>

definition brokenAssignText :: string where
  "brokenAssignText = ''const validate'' @ [newline] @ ''= function () {}''"

definition brokenAssignMatch :: string where
  "brokenAssignMatch = ''validate'' @ [newline] @ ''= function''"

text \<open>
  Two texts for the file analyzer: one that calls both services without importing the
  helper module, and one that imports it and calls the validation service.
\<close>

definition tokensOnlyText :: string where
  "tokensOnlyText = ''ValidationService.validate(x); FormatterService.formatValue(y)''"

definition importingText :: string where
  "importingText = ''import { ValidationService } from \"@/lib/validation\"'' @ [newline]
     @ ''ValidationService.validate(x)''"

text \<open>
  A project tree with a directory of eight files; one of them cannot be read.  The path
  functions are simple stand-ins for those of the host.
\<close>

definition demoTree :: "(string \<times> (string + string)) list" where
  "demoTree = [
     (''/project/src/a.ts'', Inr ''new RegExp(p)''),
     (''/project/src/b.ts'', Inr ''x.trim()''),
     (''/project/src/c.ts'', Inr ''let n = 1''),
     (''/project/src/d.ts'', Inl ''EACCES: permission denied''),
     (''/project/src/e.ts'', Inr ''new RegExp(q)''),
     (''/project/src/f.ts'', Inr ''y.trim()''),
     (''/project/src/g.ts'', Inr (''a.match(/x/)'' @ [newline] @ ''b.trim()'')),
     (''/project/src/h.ts'', Inr ''new RegExp(r)'')]"

definition demoHost :: Host where
  "demoHost = \<lparr>
     projectRoot = ''/project'',
     path_join = (\<lambda>a b. a @ ''/'' @ b),
     path_relative = (\<lambda>from to. drop (length from + 1) to),
     existsSync = (\<lambda>p. p = ''/project/src'' \<or> p \<in> set (map fst demoTree)),
     isDirectory = (\<lambda>p. p = ''/project/src''),
     globSync = (\<lambda>pat. if pat = ''/project/src/**/*.{tsx,jsx,ts,js}'' then map fst demoTree else []),
     readFile = (\<lambda>p. case map_of demoTree p of Some r \<Rightarrow> r | None \<Rightarrow> Inl ''ENOENT: no such file or directory'') \<rparr>"

definition demoFiles :: "string list" where
  "demoFiles = map fst demoTree"

definition demoResults :: "CheckResult list" where
  "demoResults = map (checkFile (readFile demoHost)) demoFiles"

section \<open>Lemmas on the host functions and on the loops of the check\<close>

lemma findIndex_Some:
  "findIndex p xs = Some i \<Longrightarrow> i < length xs \<and> p (xs ! i) \<and> (\<forall>j<i. \<not> p (xs ! j))"
proof (induction xs arbitrary: i)
  case Nil
  then show ?case by simp
next
  case (Cons x xs)
  show ?case
  proof (cases "p x")
    case True
    with Cons.prems show ?thesis by simp
  next
    case False
    with Cons.prems obtain k where k: "findIndex p xs = Some k" "i = Suc k"
      by auto
    from Cons.IH[OF k(1)] have ih: "k < length xs" "p (xs ! k)" "\<forall>j<k. \<not> p (xs ! j)"
      by auto
    have "\<forall>j<Suc k. \<not> p ((x # xs) ! j)"
    proof (intro allI impI)
      fix j assume "j < Suc k"
      then show "\<not> p ((x # xs) ! j)"
        using False ih(3) by (cases j) auto
    qed
    with ih k show ?thesis by simp
  qed
qed

lemma findIndex_None: "findIndex p xs = None \<longleftrightarrow> (\<forall>x\<in>set xs. \<not> p x)"
  by (induction xs) auto

lemma checkMatch_cases:
  "checkMatch src d a b mt = Inr out \<Longrightarrow> out = [] \<or> (\<exists>i. out = [i])"
  by (auto simp: checkMatch_def Let_def split: option.splits sum.splits)

lemma checkMatches_origin:
  "checkMatches src d a b mts acc = Inr out \<Longrightarrow>
   \<exists>new. out = acc @ new \<and> (\<forall>i\<in>set new. \<exists>mt\<in>set mts. checkMatch src d a b mt = Inr [i])"
proof (induction mts arbitrary: acc)
  case Nil
  then show ?case by simp
next
  case (Cons mt mts)
  from Cons.prems obtain new1 where n1: "checkMatch src d a b mt = Inr new1"
    and rest: "checkMatches src d a b mts (acc @ new1) = Inr out"
    by (auto split: sum.splits)
  from Cons.IH[OF rest] obtain new2 where n2: "out = (acc @ new1) @ new2"
    and o2: "\<forall>i\<in>set new2. \<exists>mt\<in>set mts. checkMatch src d a b mt = Inr [i]"
    by blast
  from checkMatch_cases[OF n1] n1
  have o1: "\<forall>i\<in>set new1. checkMatch src d a b mt = Inr [i]"
    by auto
  have "out = acc @ (new1 @ new2)" using n2 by simp
  moreover have "\<forall>i\<in>set (new1 @ new2). \<exists>mt'\<in>set (mt # mts). checkMatch src d a b mt' = Inr [i]"
    using o1 o2 by auto
  ultimately show ?case by blast
qed

lemma checkDetectors_origin:
  "checkDetectors src a b ds acc = Inr out \<Longrightarrow>
   \<exists>new. out = acc @ new \<and>
     (\<forall>i\<in>set new. \<exists>d\<in>set ds. \<exists>ms. match_str src (pattern d) = Some ms \<and>
        (\<exists>mt\<in>set ms. checkMatch src d a b mt = Inr [i]))"
proof (induction ds arbitrary: acc)
  case Nil
  then show ?case by simp
next
  case (Cons d ds)
  show ?case
  proof (cases "match_str src (pattern d)")
    case None
    with Cons.prems have "checkDetectors src a b ds acc = Inr out" by simp
    from Cons.IH[OF this] show ?thesis by auto
  next
    case (Some ms)
    with Cons.prems obtain mid where m1: "checkMatches src d a b ms acc = Inr mid"
      and rest: "checkDetectors src a b ds mid = Inr out"
      by (auto split: sum.splits)
    from checkMatches_origin[OF m1] obtain new1 where n1: "mid = acc @ new1"
      and o1: "\<forall>i\<in>set new1. \<exists>mt\<in>set ms. checkMatch src d a b mt = Inr [i]"
      by blast
    from Cons.IH[OF rest] obtain new2 where n2: "out = mid @ new2"
      and o2: "\<forall>i\<in>set new2. \<exists>d\<in>set ds. \<exists>ms. match_str src (pattern d) = Some ms \<and>
        (\<exists>mt\<in>set ms. checkMatch src d a b mt = Inr [i])"
      by blast
    have "out = acc @ (new1 @ new2)" using n1 n2 by simp
    moreover have "\<forall>i\<in>set (new1 @ new2). \<exists>d'\<in>set (d # ds). \<exists>ms. match_str src (pattern d') = Some ms \<and>
        (\<exists>mt\<in>set ms. checkMatch src d' a b mt = Inr [i])"
      using o1 o2 Some by auto
    ultimately show ?thesis by blast
  qed
qed

lemma issue_origin:
  assumes "checkContent filePath src = Inr report" and "i \<in> set (issues report)"
  shows "\<exists>d\<in>set VALIDATION_ISSUES. \<exists>ms. match_str src (pattern d) = Some ms \<and>
     (\<exists>mt\<in>set ms. checkMatch src d (includes_str src ''ValidationService'')
        (includes_str src ''FormatterService'') mt = Inr [i])"
proof -
  from assms(1) obtain found where
    f: "checkDetectors src (includes_str src ''ValidationService'')
          (includes_str src ''FormatterService'') VALIDATION_ISSUES [] = Inr found"
    and r: "issues report = found"
    by (auto simp: checkContent_def Let_def split: sum.splits)
  from checkDetectors_origin[OF f] r assms(2) show ?thesis by auto
qed

lemma getSuggestion_undefined: "getSuggestion None d a b = Inl TypeError"
  by (simp add: getSuggestion_def)

lemma checkMatch_issue:
  assumes "checkMatch src d a b mt = Inr [i]"
  shows "\<exists>m k. mt = Some m \<and> findIndex (\<lambda>ln. includes_str ln m) (split src) = Some k \<and>
     line i = k + 1 \<and> content i = trim (split src ! k) \<and>
     getSuggestion mt d a b = Inr (suggestion i) \<and>
     issue_pattern i = toString (pattern d) \<and> issue_message i = message d \<and>
     issue_severity i = severity d"
proof (cases mt)
  case None
  with assms show ?thesis
    by (auto simp: checkMatch_def Let_def getSuggestion_undefined split: option.splits)
next
  case (Some m)
  with assms show ?thesis
    by (auto simp: checkMatch_def Let_def ToString_def split: option.splits sum.splits)
qed

text \<open>The sort by issue count is the stable insertion sort on the negated count.\<close>

lemma insertBy_insort_key:
  "insertBy byIssueCount x ys = insort_key (\<lambda>f. - int (issueCount f)) x ys"
  by (induction ys) (auto simp: byIssueCount_def)

lemma sortBy_sort_key:
  "sortBy byIssueCount xs = sort_key (\<lambda>f. - int (issueCount f)) xs"
  by (induction xs) (simp_all add: sortBy_def insertBy_insort_key)

lemma sortBy_mset: "mset (sortBy byIssueCount xs) = mset xs"
  by (simp add: sortBy_sort_key)

lemma sortBy_descending:
  "sorted_wrt (\<lambda>a b. issueCount b \<le> issueCount a) (sortBy byIssueCount xs)"
proof -
  have "sorted (map (\<lambda>f. - int (issueCount f)) (sort_key (\<lambda>f. - int (issueCount f)) xs))"
    by (rule sorted_sort_key)
  then show ?thesis
    by (simp add: sortBy_sort_key sorted_map)
qed

lemma sortBy_stable:
  "filter (\<lambda>f. issueCount f = k) (sortBy byIssueCount xs) = filter (\<lambda>f. issueCount f = k) xs"
proof -
  have "filter (\<lambda>f. - int (issueCount f) = - int k) (sort_key (\<lambda>f. - int (issueCount f)) xs)
      = filter (\<lambda>f. - int (issueCount f) = - int k) xs"
    by (rule sort_key_stable)
  then show ?thesis by (simp add: sortBy_sort_key)
qed

lemma withIssues_iff:
  "r \<in> set (withIssues results) \<longleftrightarrow> Checked r \<in> set results \<and> 0 < issueCount r"
  by (induction results) (auto simp: withIssues_def split: CheckResult.splits)

text \<open>
  When every promise completes, in whatever order and however often it is listed, the
  result is the list of the values in the order of the promises.
\<close>

lemma fold_store:
  "length vs = length ps \<Longrightarrow>
   length (fold (\<lambda>i vs. if i < length ps then vs[i := Some (ps ! i)] else vs) order vs) = length ps \<and>
   (\<forall>i<length ps.
      fold (\<lambda>i vs. if i < length ps then vs[i := Some (ps ! i)] else vs) order vs ! i =
        (if i \<in> set order then Some (ps ! i) else vs ! i))"
proof (induction order arbitrary: vs)
  case Nil
  then show ?case by simp
next
  case (Cons j order)
  let ?vs = "if j < length ps then vs[j := Some (ps ! j)] else vs"
  have l: "length ?vs = length ps" using Cons.prems by simp
  from Cons.IH[OF l] have ih:
    "length (fold (\<lambda>i vs. if i < length ps then vs[i := Some (ps ! i)] else vs) order ?vs) = length ps"
    "\<forall>i<length ps.
      fold (\<lambda>i vs. if i < length ps then vs[i := Some (ps ! i)] else vs) order ?vs ! i =
        (if i \<in> set order then Some (ps ! i) else ?vs ! i)"
    by blast+
  have "\<forall>i<length ps. (if i \<in> set order then Some (ps ! i) else ?vs ! i) =
      (if i \<in> set (j # order) then Some (ps ! i) else vs ! i)"
    using Cons.prems by (auto simp: nth_list_update)
  with ih show ?case by simp
qed

lemma promiseAll_complete:
  assumes "{..<length ps} \<subseteq> set order"
  shows "promiseAll order ps = Some ps"
proof -
  let ?vs = "fold (\<lambda>i vs. if i < length ps then vs[i := Some (ps ! i)] else vs) order
               (replicate (length ps) None)"
  from fold_store[of "replicate (length ps) None" ps order]
  have l: "length ?vs = length ps" and n: "\<forall>i<length ps. ?vs ! i = Some (ps ! i)"
    using assms by auto
  have "?vs = map Some ps"
    using l n by (simp add: list_eq_iff_nth_eq)
  then show ?thesis
    by (simp add: promiseAll_def Let_def comp_def)
qed

lemma scan_complete:
  assumes "{..<length (targetFiles host args)} \<subseteq> set order"
  shows "scan host args order =
     (case selectFiles host (path_join host (projectRoot host) (targetOf args)) of
        None \<Rightarrow> Some (TargetNotFound (targetOf args))
      | Some files \<Rightarrow>
          Some (Scanned (summarize host files (map (checkFile (readFile host)) files))))"
proof (cases "selectFiles host (path_join host (projectRoot host) (targetOf args))")
  case None
  then show ?thesis by (simp add: scan_def)
next
  case (Some files)
  with assms have "{..<length (map (checkFile (readFile host)) files)} \<subseteq> set order"
    by (simp add: targetFiles_def)
  from promiseAll_complete[OF this] Some show ?thesis
    by (simp add: scan_def)
qed

text \<open>
  The matcher only moves forward, and a consuming pattern moves at least one character;
  so the matches of such a pattern are never empty and the loops over them end.
\<close>

lemma repeatMatcher_mono:
  "repeatMatcher ic a mn g p s c k = Some y \<Longrightarrow>
   \<exists>p' s' c'. length s' + mn \<le> length s \<and> k p' s' c' = Some y"
proof (induction s arbitrary: mn p)
  case Nil
  then show ?case by (auto split: if_splits)
next
  case (Cons x xs)
  show ?case
  proof (cases "0 < mn")
    case True
    with Cons.prems have "repeatMatcher ic a (mn - 1) g (Some x) xs c k = Some y"
      by (auto split: if_splits)
    from Cons.IH[OF this] obtain p' s' c' where
      "length s' + (mn - 1) \<le> length xs" "k p' s' c' = Some y"
      by blast
    moreover from this(1) True have "length s' + mn \<le> length (x # xs)" by simp
    ultimately show ?thesis by blast
  next
    case False
    then have mn: "mn = 0" by simp
    from Cons.prems mn have
      "k p (x # xs) c = Some y \<or> repeatMatcher ic a 0 g (Some x) xs c k = Some y"
      by (auto split: if_splits option.splits)
    then show ?thesis
    proof
      assume h: "k p (x # xs) c = Some y"
      have "length (x # xs) + mn \<le> length (x # xs)" using mn by simp
      with h show ?thesis by blast
    next
      assume "repeatMatcher ic a 0 g (Some x) xs c k = Some y"
      from Cons.IH[OF this] obtain p' s' c' where
        "length s' + 0 \<le> length xs" "k p' s' c' = Some y"
        by blast
      moreover from this(1) mn have "length s' + mn \<le> length (x # xs)" by simp
      ultimately show ?thesis by blast
    qed
  qed
qed

lemma matcher_mono:
  "matcher ic r p s c k = Some y \<Longrightarrow>
   \<exists>p' s' c'. length s' \<le> length s \<and> k p' s' c' = Some y"
proof (induction r arbitrary: p s c k)
  case Empty
  then have "k p s c = Some y" by simp
  moreover have "length s \<le> length s" by simp
  ultimately show ?case by blast
next
  case (Atom a)
  then obtain x xs where s: "s = x # xs" and k: "k (Some x) xs c = Some y"
    by (cases s) (auto split: if_splits)
  have "length xs \<le> length s" using s by simp
  with k show ?case by blast
next
  case Boundary
  then have "k p s c = Some y" by (auto split: if_splits)
  moreover have "length s \<le> length s" by simp
  ultimately show ?case by blast
next
  case (Seq r1 r2)
  from Seq.prems have "matcher ic r1 p s c (\<lambda>p' s' c'. matcher ic r2 p' s' c' k) = Some y"
    by simp
  from Seq.IH(1)[OF this] obtain p1 s1 c1 where
    s1: "length s1 \<le> length s" "matcher ic r2 p1 s1 c1 k = Some y"
    by blast
  from Seq.IH(2)[OF s1(2)] obtain p2 s2 c2 where
    "length s2 \<le> length s1" "k p2 s2 c2 = Some y"
    by blast
  with s1(1) show ?case by (meson le_trans)
next
  case (Alt r1 r2)
  from Alt.prems have "matcher ic r1 p s c k = Some y \<or> matcher ic r2 p s c k = Some y"
    by (auto split: option.splits)
  with Alt.IH show ?case by blast
next
  case (Group i r)
  from Group.prems have
    "matcher ic r p s c (\<lambda>p' s' c'. k p' s' (c'[i := Some (take (length s - length s') s)])) = Some y"
    by simp
  from Group.IH[OF this] show ?case by blast
next
  case (Repeat mn g a)
  then have "repeatMatcher ic a mn g p s c k = Some y" by simp
  from repeatMatcher_mono[OF this] obtain p' s' c' where
    "length s' + mn \<le> length s" "k p' s' c' = Some y"
    by blast
  moreover from this(1) have "length s' \<le> length s" by simp
  ultimately show ?case by blast
qed

lemma matcher_consuming:
  "consuming r \<Longrightarrow> matcher ic r p s c k = Some y \<Longrightarrow>
   \<exists>p' s' c'. length s' < length s \<and> k p' s' c' = Some y"
proof (induction r arbitrary: p s c k)
  case Empty
  then show ?case by simp
next
  case (Atom a)
  then obtain x xs where s: "s = x # xs" and k: "k (Some x) xs c = Some y"
    by (cases s) (auto split: if_splits)
  have "length xs < length s" using s by simp
  with k show ?case by blast
next
  case Boundary
  then show ?case by simp
next
  case (Seq r1 r2)
  from Seq.prems(2) have m: "matcher ic r1 p s c (\<lambda>p' s' c'. matcher ic r2 p' s' c' k) = Some y"
    by simp
  from Seq.prems(1) have "consuming r1 \<or> consuming r2" by simp
  then show ?case
  proof
    assume c1: "consuming r1"
    from Seq.IH(1)[OF c1 m] obtain p1 s1 c1 where
      s1: "length s1 < length s" "matcher ic r2 p1 s1 c1 k = Some y"
      by blast
    from matcher_mono[OF s1(2)] obtain p2 s2 c2 where
      "length s2 \<le> length s1" "k p2 s2 c2 = Some y"
      by blast
    with s1(1) show ?thesis by (meson le_less_trans)
  next
    assume c2: "consuming r2"
    from matcher_mono[OF m] obtain p1 s1 c1 where
      s1: "length s1 \<le> length s" "matcher ic r2 p1 s1 c1 k = Some y"
      by blast
    from Seq.IH(2)[OF c2 s1(2)] obtain p2 s2 c2 where
      "length s2 < length s1" "k p2 s2 c2 = Some y"
      by blast
    with s1(1) show ?thesis by (meson less_le_trans)
  qed
next
  case (Alt r1 r2)
  from Alt.prems have "matcher ic r1 p s c k = Some y \<or> matcher ic r2 p s c k = Some y"
    by (auto split: option.splits)
  with Alt.IH Alt.prems(1) show ?case by auto
next
  case (Group i r)
  from Group.prems have
    "matcher ic r p s c (\<lambda>p' s' c'. k p' s' (c'[i := Some (take (length s - length s') s)])) = Some y"
    "consuming r"
    by simp_all
  from Group.IH[OF this(2) this(1)] show ?case by blast
next
  case (Repeat mn g a)
  then have "repeatMatcher ic a mn g p s c k = Some y" "0 < mn" by simp_all
  from repeatMatcher_mono[OF this(1)] obtain p' s' c' where
    "length s' + mn \<le> length s" "k p' s' c' = Some y"
    by blast
  moreover from this(1) \<open>0 < mn\<close> have "length s' < length s" by simp
  ultimately show ?case by blast
qed

lemma matchHere_nonempty:
  assumes "consuming (body rx)" and "matchHere rx p s = Some (m, s', c')"
  shows "m \<noteq> []"
proof -
  from assms(2) have "matcher (ignoreCase rx) (body rx) p s (replicate (groups rx) None)
       (\<lambda>p' s' c'. Some (take (length s - length s') s, s', c')) = Some (m, s', c')"
    by (simp add: matchHere_def)
  from matcher_consuming[OF assms(1) this] obtain p1 s1 c1 where
    s1: "length s1 < length s"
    and k: "Some (take (length s - length s1) s, s1, c1) = Some (m, s', c')"
    by blast
  from k have "m = take (length s - length s1) s" by auto
  with s1 show ?thesis by auto
qed

lemma globalFrom_nonempty:
  assumes "consuming (body rx)"
  shows "(m, c) \<in> set (globalFrom rx skip p s) \<Longrightarrow> m \<noteq> []"
proof (induction s arbitrary: skip p)
  case Nil
  show ?case
  proof (cases "matchHere rx p []")
    case None
    with Nil show ?thesis by (cases "skip = 0") simp_all
  next
    case (Some r)
    obtain m0 s0 c0 where r: "r = (m0, s0, c0)" by (cases r) auto
    from Nil Some r have "(m, c) = (m0, c0)" by (cases "skip = 0") simp_all
    with Some r have "matchHere rx p [] = Some (m, s0, c)" by simp
    then show ?thesis by (rule matchHere_nonempty[OF assms])
  qed
next
  case (Cons x xs)
  show ?case
  proof (cases "0 < skip")
    case True
    with Cons.prems have "(m, c) \<in> set (globalFrom rx (skip - 1) (Some x) xs)" by simp
    then show ?thesis by (rule Cons.IH)
  next
    case False
    show ?thesis
    proof (cases "matchHere rx p (x # xs)")
      case None
      with Cons.prems False have "(m, c) \<in> set (globalFrom rx 0 (Some x) xs)" by simp
      then show ?thesis by (rule Cons.IH)
    next
      case (Some r)
      obtain m0 s0 c0 where r: "r = (m0, s0, c0)" by (cases r) auto
      from Cons.prems False Some r have
        "(m, c) = (m0, c0) \<or> (m, c) \<in> set (globalFrom rx (length m0 - 1) (Some x) xs)"
        by simp
      then show ?thesis
      proof
        assume "(m, c) = (m0, c0)"
        with Some r have "matchHere rx p (x # xs) = Some (m, s0, c)" by simp
        then show ?thesis by (rule matchHere_nonempty[OF assms])
      next
        assume "(m, c) \<in> set (globalFrom rx (length m0 - 1) (Some x) xs)"
        then show ?thesis by (rule Cons.IH)
      qed
    qed
  qed
qed

lemma execLoop_total:
  assumes "consuming (body rx)"
  shows "execLoop rx src = Some (globalFrom rx 0 None src)"
proof -
  have "\<not> list_ex (\<lambda>(m, c). m = []) (globalFrom rx 0 None src)"
  proof
    assume "list_ex (\<lambda>(m, c). m = []) (globalFrom rx 0 None src)"
    then obtain c where "([], c) \<in> set (globalFrom rx 0 None src)"
      by (auto simp: list_ex_iff)
    from globalFrom_nonempty[OF assms this] show False by simp
  qed
  then show ?thesis by (simp add: execLoop_def)
qed

lemma consuming_validationMethodRegex: "consuming (body validationMethodRegex)"
  by (simp add: validationMethodRegex_def lits_def)

lemma consuming_formatterMethodRegex: "consuming (body formatterMethodRegex)"
  by (simp add: formatterMethodRegex_def lits_def)

lemma methodCalls_total:
  "methodCalls validationMethodRegex src \<noteq> None" "methodCalls formatterMethodRegex src \<noteq> None"
  by (simp_all add: methodCalls_def execLoop_total consuming_validationMethodRegex
      consuming_formatterMethodRegex)

lemma match_global_nonempty:
  "global rx \<Longrightarrow> match_str src rx = Some ms \<Longrightarrow> ms \<noteq> []"
  by (auto simp: match_str_def split: list.splits)

section \<open>Properties of the compliance checker\<close>

text \<open>
  Claim C1 expects one issue for each distinct matched substring of a detector and none
  for anything else.  The patterns have no global flag, so the array that the loop runs
  over is the first match followed by the texts of its capturing groups.  For the file
  \<^verbatim>\<open>x.trim()\<close> the only matched substring is \<^verbatim>\<open>.trim(\<close>, and two issues are emitted,
  the second for the group text \<^verbatim>\<open>trim\<close>.  For \<^verbatim>\<open>s.trim().slice(1)\<close> there are two
  distinct matched substrings, and the array is the same as before: \<^verbatim>\<open>.slice(\<close> gets
  no issue.  For a file with an arrow function and the word \<^verbatim>\<open>undefined\<close> the group of
  the last pattern took no part, the array holds \<^verbatim>\<open>undefined\<close>, and the check of the file
  ends in a type error instead of issues.
\<close>

theorem C1_issues_for_first_match_and_its_groups:
  "map (\<lambda>d. distinctMatches (pattern d) ''x.trim()'') VALIDATION_ISSUES =
     [[], [], [], [], [''.trim(''], []] \<and>
   match_str ''x.trim()'' stringMethodPattern = Some [Some ''.trim('', Some ''trim''] \<and>
   (case checkContent ''a.ts'' ''x.trim()'' of
      Inl e \<Rightarrow> None
    | Inr r \<Rightarrow> Some (issueCount r, map (\<lambda>i. (issue_pattern i, line i, content i)) (issues r))) =
     Some (2, [(toString stringMethodPattern, 1, ''x.trim()''),
               (toString stringMethodPattern, 1, ''x.trim()'')]) \<and>
   distinctMatches stringMethodPattern ''s.trim().slice(1)'' = [''.trim('', ''.slice(''] \<and>
   match_str ''s.trim().slice(1)'' stringMethodPattern = Some [Some ''.trim('', Some ''trim''] \<and>
   match_str ''const f = () => { return undefined }'' customFunctionPattern = Some [Some ''=> {'', None] \<and>
   checkContent ''a.ts'' ''const f = () => { return undefined }'' = Inl TypeError"
  by code_simp

text \<open>
  Claim C2 expects two issues for a file with one \<^verbatim>\<open>.match(/x/)\<close> call and one
  \<^verbatim>\<open>.trim()\<close> call.  The scan of such a file reports three: one of severity "high"
  for the \<^verbatim>\<open>.match\<close> call and two of severity "low" for the one \<^verbatim>\<open>.trim()\<close> call,
  the second for the text of the capturing group of the pattern.
\<close>

theorem C2_match_and_trim_file_three_issues:
  "readFile demoHost ''/project/src/g.ts'' = Inr (''a.match(/x/)'' @ [newline] @ ''b.trim()'') \<and>
   map_option
     (\<lambda>outcome. case outcome of
        TargetNotFound t \<Rightarrow> None
      | Scanned s \<Rightarrow> Some (filesScanned s, filesWithIssues s, totalIssues s,
          highSeverityIssues s, mostProblematicFiles s,
          map (\<lambda>d. map (\<lambda>i. (issue_severity i, line i, content i)) (detail_issues d)) (detail s)))
     (scan demoHost \<lparr> target = Some ''src/g.ts'', fix_flag = None \<rparr> [0]) =
   Some (Some (1, 1, 3, 1, [\<lparr> offender_path = ''src/g.ts'', offender_issueCount = 3 \<rparr>],
     [[(''high'', 1, ''a.match(/x/)''), (''low'', 2, ''b.trim()''), (''low'', 2, ''b.trim()'')]]))"
  by code_simp

text \<open>
  Claim C3 expects the line of every issue to be the first line that contains the
  matched substring.  For the file \<^verbatim>\<open>let trim = 1\<close>, \<^verbatim>\<open>x.trim()\<close> the only pattern
  that matches is the one for string methods, and its only matched substring is
  \<^verbatim>\<open>.trim(\<close> on line 2.  Two issues are emitted: one at line 2, and one at line 1, which
  holds no matched substring of any detector; it is the first line that contains the
  text \<^verbatim>\<open>trim\<close> of the capturing group.  The content of each issue is the reported
  line without the white space around it, as the second file shows.
\<close>

theorem C3_issue_on_line_without_match:
  "map (\<lambda>d. match_str trimWordText (pattern d)) VALIDATION_ISSUES =
     [None, None, None, None, Some [Some ''.trim('', Some ''trim''], None] \<and>
   map (\<lambda>d. distinctMatches (pattern d) trimWordText) VALIDATION_ISSUES =
     [[], [], [], [], [''.trim(''], []] \<and>
   split trimWordText = [''let trim = 1'', ''x.trim()''] \<and>
   includes_str ''let trim = 1'' ''.trim('' = False \<and>
   (case checkContent ''a.ts'' trimWordText of
      Inl e \<Rightarrow> None
    | Inr r \<Rightarrow> Some (map (\<lambda>i. (issue_pattern i, line i, content i)) (issues r))) =
     Some [(toString stringMethodPattern, 2, ''x.trim()''),
           (toString stringMethodPattern, 1, ''let trim = 1'')] \<and>
   (case checkContent ''a.ts'' trimWordIndented of
      Inl e \<Rightarrow> None
    | Inr r \<Rightarrow> Some (map (\<lambda>i. (issue_pattern i, line i, content i)) (issues r))) =
     Some [(toString stringMethodPattern, 2, ''x.trim()''),
           (toString stringMethodPattern, 1, ''let trim = 1'')]"
  by code_simp

text \<open>
  Claim C4 expects the error text of a file whose read fails in the per-file detail of
  the report.  The scan of the one unreadable file of the example tree counts the file in
  \<open>filesScanned\<close> and adds nothing to \<open>filesWithIssues\<close> and \<open>totalIssues\<close>, as the
  claim says; but although \<open>checkFile\<close> returns the error text, the result has no
  issue count, the filter on the issue count drops it, and the detail of the report is
  empty.
\<close>

theorem C4_read_error_absent_from_report:
  "readFile demoHost ''/project/src/d.ts'' = Inl ''EACCES: permission denied'' \<and>
   checkFile (readFile demoHost) ''/project/src/d.ts'' =
     CheckError ''/project/src/d.ts'' ''Error checking file: EACCES: permission denied'' \<and>
   withIssues [checkFile (readFile demoHost) ''/project/src/d.ts''] = [] \<and>
   scan demoHost \<lparr> target = Some ''src/d.ts'', fix_flag = None \<rparr> [0] =
     Some (Scanned \<lparr> filesScanned = 1, filesWithIssues = 0, totalIssues = 0,
       highSeverityIssues = 0, mostProblematicFiles = [], detail = [] \<rparr>)"
  by code_simp

text \<open>
  Claim C5.  In every summary, \<open>mostProblematicFiles\<close> is the prefix of length
  \<open>min 5 n\<close> of the list of the \<open>n\<close> files with issues after sorting; the sorted list
  is a rearrangement of the files with issues, in descending order of issue count, with
  files of equal count in their scan order; each entry is the relative path and the issue
  count of its file; the files with issues are exactly the checked files with a positive
  count, so every entry has a positive count.
\<close>

theorem C5_top_offenders_prefix_of_stable_sort:
  "\<exists>sorted.
     mset sorted = mset (withIssues results) \<and>
     sorted_wrt (\<lambda>a b. issueCount b \<le> issueCount a) sorted \<and>
     (\<forall>k. filter (\<lambda>f. issueCount f = k) sorted = filter (\<lambda>f. issueCount f = k) (withIssues results)) \<and>
     mostProblematicFiles (summarize host files results) =
       map (\<lambda>f. \<lparr> offender_path = path_relative host (projectRoot host) (path f),
                    offender_issueCount = issueCount f \<rparr>)
         (take (min 5 (length (withIssues results))) sorted) \<and>
     length (mostProblematicFiles (summarize host files results)) = min 5 (length (withIssues results)) \<and>
     (\<forall>r. r \<in> set (withIssues results) \<longleftrightarrow> Checked r \<in> set results \<and> 0 < issueCount r) \<and>
     (\<forall>off\<in>set (mostProblematicFiles (summarize host files results)). 0 < offender_issueCount off)"
proof -
  let ?s = "sortBy byIssueCount (withIssues results)"
  have len: "length ?s = length (withIssues results)"
    by (simp add: sortBy_sort_key)
  have top: "mostProblematicFiles (summarize host files results) =
       map (\<lambda>f. \<lparr> offender_path = path_relative host (projectRoot host) (path f),
                    offender_issueCount = issueCount f \<rparr>) (take 5 ?s)"
    by (simp add: summarize_def Let_def)
  have t5: "take 5 ?s = take (min 5 (length (withIssues results))) ?s"
    using len by (simp add: min_def)
  have pos: "0 < offender_issueCount off"
    if "off \<in> set (mostProblematicFiles (summarize host files results))" for off
  proof -
    from that top obtain f where f: "f \<in> set (take 5 ?s)" "offender_issueCount off = issueCount f"
      by auto
    from f(1) have "f \<in> set ?s" by (rule in_set_takeD)
    then have "f \<in> set (withIssues results)" by (simp add: sortBy_sort_key)
    with f(2) show ?thesis by (simp add: withIssues_iff)
  qed
  have "length (mostProblematicFiles (summarize host files results)) = min 5 (length (withIssues results))"
    using top len by (simp add: min_def)
  with top t5 pos sortBy_mset[of "withIssues results"] sortBy_descending[of "withIssues results"]
    sortBy_stable[of _ "withIssues results"] withIssues_iff[of _ results]
  show ?thesis
    by (intro exI[of _ ?s]) simp
qed

lemma demo_top:
  "mostProblematicFiles (summarize demoHost demoFiles demoResults) =
     [\<lparr>offender_path = ''src/g.ts'', offender_issueCount = 3\<rparr>,
      \<lparr>offender_path = ''src/b.ts'', offender_issueCount = 2\<rparr>,
      \<lparr>offender_path = ''src/f.ts'', offender_issueCount = 2\<rparr>,
      \<lparr>offender_path = ''src/a.ts'', offender_issueCount = 1\<rparr>,
      \<lparr>offender_path = ''src/e.ts'', offender_issueCount = 1\<rparr>] \<and>
   map (\<lambda>f. (drop 13 (path f), issueCount f)) (withIssues demoResults) =
     [(''a.ts'', 1), (''b.ts'', 2), (''e.ts'', 1), (''f.ts'', 2), (''g.ts'', 3), (''h.ts'', 1)]"
  by code_simp

theorem C5_witness:
  "mostProblematicFiles (summarize demoHost demoFiles demoResults) =
     [\<lparr>offender_path = ''src/g.ts'', offender_issueCount = 3\<rparr>,
      \<lparr>offender_path = ''src/b.ts'', offender_issueCount = 2\<rparr>,
      \<lparr>offender_path = ''src/f.ts'', offender_issueCount = 2\<rparr>,
      \<lparr>offender_path = ''src/a.ts'', offender_issueCount = 1\<rparr>,
      \<lparr>offender_path = ''src/e.ts'', offender_issueCount = 1\<rparr>] \<and>
   map (\<lambda>f. (drop 13 (path f), issueCount f)) (withIssues demoResults) =
     [(''a.ts'', 1), (''b.ts'', 2), (''e.ts'', 1), (''f.ts'', 2), (''g.ts'', 3), (''h.ts'', 1)] \<and>
   (\<exists>sorted.
     mset sorted = mset (withIssues demoResults) \<and>
     sorted_wrt (\<lambda>a b. issueCount b \<le> issueCount a) sorted \<and>
     (\<forall>k. filter (\<lambda>f. issueCount f = k) sorted = filter (\<lambda>f. issueCount f = k) (withIssues demoResults)) \<and>
     mostProblematicFiles (summarize demoHost demoFiles demoResults) =
       map (\<lambda>f. \<lparr> offender_path = path_relative demoHost (projectRoot demoHost) (path f),
                    offender_issueCount = issueCount f \<rparr>)
         (take (min 5 (length (withIssues demoResults))) sorted) \<and>
     length (mostProblematicFiles (summarize demoHost demoFiles demoResults)) = min 5 (length (withIssues demoResults)))"
  using C5_top_offenders_prefix_of_stable_sort[of demoResults demoHost demoFiles] demo_top
  by blast

text \<open>
  Claim C6.  For a given host (project tree, file contents and library functions) the
  answer of the tool does not depend on the order in which the checks of the files
  complete: any two orders in which every file completes give the same serialised text,
  and the tool does return one.  The text is a function of the host and the arguments
  alone, so two scans of an unchanged tree return identical texts.
\<close>

theorem C6_report_independent_of_completion_order:
  assumes "{..<length (targetFiles host args)} \<subseteq> set order1"
    and "{..<length (targetFiles host args)} \<subseteq> set order2"
  shows "runValidationCheckerTool stringify host args order1 =
         runValidationCheckerTool stringify host args order2 \<and>
         runValidationCheckerTool stringify host args order1 \<noteq> None"
  using scan_complete[OF assms(1)] scan_complete[OF assms(2)]
  by (simp add: runValidationCheckerTool_def split: option.splits)

lemma demo_targetFiles:
  "targetFiles demoHost \<lparr> target = Some ''src'', fix_flag = None \<rparr> = demoFiles"
  by code_simp

theorem C6_witness:
  "\<forall>stringify.
     runValidationCheckerTool stringify demoHost \<lparr> target = Some ''src'', fix_flag = None \<rparr> [0, 1, 2, 3, 4, 5, 6, 7] =
     runValidationCheckerTool stringify demoHost \<lparr> target = Some ''src'', fix_flag = None \<rparr> [6, 2, 7, 0, 5, 3, 1, 4] \<and>
     runValidationCheckerTool stringify demoHost \<lparr> target = Some ''src'', fix_flag = None \<rparr> [0, 1, 2, 3, 4, 5, 6, 7] \<noteq> None"
proof
  fix stringify :: "Summary \<Rightarrow> string"
  have n: "length (targetFiles demoHost \<lparr> target = Some ''src'', fix_flag = None \<rparr>) = 8"
    unfolding demo_targetFiles by code_simp
  have a: "{..<length (targetFiles demoHost \<lparr> target = Some ''src'', fix_flag = None \<rparr>)} \<subseteq> set [0, 1, 2, 3, 4, 5, 6, 7]"
    unfolding n by (auto simp: lessThan_def numeral_eq_Suc less_Suc_eq)
  have b: "{..<length (targetFiles demoHost \<lparr> target = Some ''src'', fix_flag = None \<rparr>)} \<subseteq> set [6, 2, 7, 0, 5, 3, 1, 4]"
    unfolding n by (auto simp: lessThan_def numeral_eq_Suc less_Suc_eq)
  from C6_report_independent_of_completion_order[OF a b, of stringify]
  show "runValidationCheckerTool stringify demoHost \<lparr> target = Some ''src'', fix_flag = None \<rparr> [0, 1, 2, 3, 4, 5, 6, 7] =
     runValidationCheckerTool stringify demoHost \<lparr> target = Some ''src'', fix_flag = None \<rparr> [6, 2, 7, 0, 5, 3, 1, 4] \<and>
     runValidationCheckerTool stringify demoHost \<lparr> target = Some ''src'', fix_flag = None \<rparr> [0, 1, 2, 3, 4, 5, 6, 7] \<noteq> None" .
qed

text \<open>
  Claim C8.  For the file text \<^verbatim>\<open>if (x.test(/^[a-z]+$/)) {}\<close> the check emits exactly
  one issue; its severity is "high" and its suggestion names
  \<^verbatim>\<open>ValidationService.createValidator()\<close> or a validator from \<^verbatim>\<open>@/lib/validation\<close>
  as the alternative to the regex test.  Only the direct \<^verbatim>\<open>.test()\<close> detector matches
  this text.
\<close>

theorem C8_regex_test_single_high_issue:
  "checkContent filePath ''if (x.test(/^[a-z]+$/)) {}'' = Inr \<lparr>
     path = filePath,
     usesValidationImport = False,
     usesValidationService = False,
     usesFormatterService = False,
     issueCount = 1,
     issues = [\<lparr>
       issue_pattern = toString testPattern,
       issue_message = ''Using regex test() directly instead of ValidationService'',
       issue_severity = ''high'',
       line = 1,
       content = ''if (x.test(/^[a-z]+$/)) {}'',
       suggestion = ''Use ValidationService.createValidator() or a specific validator from @/lib/validation instead of regex tests'' \<rparr>],
     suggestedFix = Some ''import { ValidationService, FormatterService } from \"@/lib/validation\";'' \<rparr>"
  by code_simp

lemma ungated_check: "checkContent ''a.ts'' ungatedText = Inr ungatedReport"
  by code_simp

text \<open>
  Claim C9.  In the report of a checked file the flags \<open>usesValidationService\<close> and
  \<open>usesFormatterService\<close> are the presence of the tokens \<^verbatim>\<open>ValidationService\<close> and
  \<^verbatim>\<open>FormatterService\<close> in the raw text and nothing else (no import pattern is
  consulted), and the suggestion of every issue is the value of \<open>getSuggestion\<close> at
  these two flags.  The witness is a file without the import: the checker's flag is
  true and the suggestion leaves the service out, while the analyzer's flag is false.
\<close>

theorem C9_flags_by_token_presence:
  assumes "checkContent filePath src = Inr report"
  shows "usesValidationService report = includes_str src ''ValidationService'' \<and>
     usesFormatterService report = includes_str src ''FormatterService'' \<and>
     (\<forall>i\<in>set (issues report). \<exists>d\<in>set VALIDATION_ISSUES. \<exists>ms mt.
        match_str src (pattern d) = Some ms \<and> mt \<in> set ms \<and>
        getSuggestion mt d (includes_str src ''ValidationService'')
          (includes_str src ''FormatterService'') = Inr (suggestion i))"
proof -
  have flags: "usesValidationService report = includes_str src ''ValidationService''"
      "usesFormatterService report = includes_str src ''FormatterService''"
    using assms by (auto simp: checkContent_def Let_def split: sum.splits)
  have "\<exists>d\<in>set VALIDATION_ISSUES. \<exists>ms mt.
        match_str src (pattern d) = Some ms \<and> mt \<in> set ms \<and>
        getSuggestion mt d (includes_str src ''ValidationService'')
          (includes_str src ''FormatterService'') = Inr (suggestion i)"
    if "i \<in> set (issues report)" for i
  proof -
    from issue_origin[OF assms that] obtain d ms mt where
      d: "d \<in> set VALIDATION_ISSUES" "match_str src (pattern d) = Some ms" "mt \<in> set ms"
      and c: "checkMatch src d (includes_str src ''ValidationService'')
          (includes_str src ''FormatterService'') mt = Inr [i]"
      by blast
    from checkMatch_issue[OF c] have
      "getSuggestion mt d (includes_str src ''ValidationService'')
          (includes_str src ''FormatterService'') = Inr (suggestion i)"
      by blast
    with d show ?thesis by blast
  qed
  with flags show ?thesis by blast
qed

theorem C9_witness:
  "checkContent ''a.ts'' ungatedText = Inr ungatedReport \<and>
   match_str ungatedText validationImportRegex = None \<and>
   usesValidationService ungatedReport = includes_str ungatedText ''ValidationService'' \<and>
   usesValidationService ungatedReport \<and>
   map_option va_usesValidationService (analyzeValidationUsage ungatedText) = Some False \<and>
   map suggestion (issues ungatedReport) = [''Consider using the appropriate method from FormatterService instead'']"
proof -
  have a: "match_str ungatedText validationImportRegex = None" by code_simp
  have b: "map_option va_usesValidationService (analyzeValidationUsage ungatedText) = Some False"
    by code_simp
  have c: "usesValidationService ungatedReport" by (simp add: ungatedReport_def)
  have d: "map suggestion (issues ungatedReport) = [''Consider using the appropriate method from FormatterService instead'']"
    by (simp add: ungatedReport_def ungatedIssue_def)
  from C9_flags_by_token_presence[OF ungated_check] ungated_check a b c d
  show ?thesis by blast
qed

text \<open>
  Claim C10 expects that the matched substring of every emitted issue lies inside one
  line.  In the file \<^verbatim>\<open>const validate\<close>, \<^verbatim>\<open>= function () {}\<close> the only match of any
  detector runs over the line break.  For this text the lookup finds no line and emits
  nothing, without a fault, as the claim says.  The array goes on with the text
  \<^verbatim>\<open>validate\<close> of the capturing group, and for it an issue of the same detector is
  emitted at line 1: an issue whose matched substring is in no single line.
\<close>

theorem C10_issue_though_match_spans_lines:
  "map (\<lambda>d. match_str brokenAssignText (pattern d)) VALIDATION_ISSUES =
     [None, None, None, None, None, Some [Some brokenAssignMatch, Some ''validate'']] \<and>
   map (\<lambda>d. distinctMatches (pattern d) brokenAssignText) VALIDATION_ISSUES =
     [[], [], [], [], [], [brokenAssignMatch]] \<and>
   split brokenAssignText = [''const validate'', ''= function () {}''] \<and>
   map (\<lambda>ln. includes_str ln brokenAssignMatch) (split brokenAssignText) = [False, False] \<and>
   checkMatch brokenAssignText (VALIDATION_ISSUES ! 5) False False (Some brokenAssignMatch) = Inr [] \<and>
   (case checkContent ''a.ts'' brokenAssignText of
      Inl e \<Rightarrow> None
    | Inr r \<Rightarrow> Some (map (\<lambda>i. (issue_pattern i, line i, content i)) (issues r))) =
     Some [(toString customFunctionPattern, 1, ''const validate'')]"
  by code_simp

section \<open>Properties of the file analyzer\<close>

text \<open>
  Claim C7.  The analysis of every text returns, and its flag for a service is true
  exactly when the import pattern of the helper module matches the text and the text
  contains the token of the service.  In particular, when the import pattern does not
  match, both flags are false, whatever tokens the text contains.
\<close>

theorem C7_usage_flag_needs_import_and_token:
  "\<exists>a. analyzeValidationUsage src = Some a \<and>
     va_usesValidationService a =
       (match_str src validationImportRegex \<noteq> None \<and> includes_str src ''ValidationService'') \<and>
     va_usesFormatterService a =
       (match_str src validationImportRegex \<noteq> None \<and> includes_str src ''FormatterService'') \<and>
     (match_str src validationImportRegex = None \<longrightarrow>
        \<not> va_usesValidationService a \<and> \<not> va_usesFormatterService a)"
proof (cases "match_str src validationImportRegex")
  case None
  then show ?thesis by (simp add: analyzeValidationUsage_def)
next
  case (Some ms)
  have "global validationImportRegex" by (simp add: validationImportRegex_def)
  from match_global_nonempty[OF this Some] have ne: "ms \<noteq> []" .
  obtain vm where vm: "methodCalls validationMethodRegex src = Some vm"
    using methodCalls_total(1)[of src] by auto
  obtain fm where fm: "methodCalls formatterMethodRegex src = Some fm"
    using methodCalls_total(2)[of src] by auto
  show ?thesis
    using Some ne vm fm by (simp add: analyzeValidationUsage_def)
qed

lemma tokensOnly_analysis:
  "match_str tokensOnlyText validationImportRegex = None \<and>
   includes_str tokensOnlyText ''ValidationService'' \<and>
   includes_str tokensOnlyText ''FormatterService'' \<and>
   analyzeValidationUsage tokensOnlyText = Some \<lparr>
     va_usesValidationService = False, va_usesFormatterService = False,
     validationImports = [], validationMethods = [], formatterMethods = [],
     potentialIssues = [] \<rparr>"
  by code_simp

lemma importing_analysis:
  "analyzeValidationUsage importingText = Some \<lparr>
     va_usesValidationService = True, va_usesFormatterService = False,
     validationImports = [Some ''import { ValidationService } from \"@/lib/validation\"''],
     validationMethods = [Some ''validate''], formatterMethods = [],
     potentialIssues = [] \<rparr>"
  by code_simp

theorem C7_witness:
  "match_str tokensOnlyText validationImportRegex = None \<and>
   includes_str tokensOnlyText ''ValidationService'' \<and>
   includes_str tokensOnlyText ''FormatterService'' \<and>
   analyzeValidationUsage tokensOnlyText = Some \<lparr>
     va_usesValidationService = False, va_usesFormatterService = False,
     validationImports = [], validationMethods = [], formatterMethods = [],
     potentialIssues = [] \<rparr> \<and>
   (\<exists>a. analyzeValidationUsage tokensOnlyText = Some a \<and>
      \<not> va_usesValidationService a \<and> \<not> va_usesFormatterService a) \<and>
   (\<exists>a. analyzeValidationUsage importingText = Some a \<and>
      va_usesValidationService a \<and> \<not> va_usesFormatterService a)"
  using C7_usage_flag_needs_import_and_token[of tokensOnlyText] tokensOnly_analysis importing_analysis
  by auto

end
